theory Spec2Isabelle
  imports Complex_Main "HOL-Library.AList"
begin

section \<open>Python strings\<close>

text \<open>
  A string is a list of code points below 256. \<open>str.strip()\<close> without an argument
  removes leading and trailing characters for which \<open>str.isspace\<close> holds; below 256
  these are 9..13, 28..32, 133 and 160. \<open>str.isdigit\<close> holds for the decimal digits
  and for the superscripts 178, 179 and 185, which \<open>int()\<close> refuses.
\<close>

definition py_isspace :: "char \<Rightarrow> bool" where
  "py_isspace c =
     (let n = (of_char c :: nat)
      in (9 \<le> n \<and> n \<le> 13) \<or> (28 \<le> n \<and> n \<le> 32) \<or> n = 133 \<or> n = 160)"

definition strip :: "string \<Rightarrow> string" where
  "strip s = rev (dropWhile py_isspace (rev (dropWhile py_isspace s)))"

definition py_isdecimal :: "char \<Rightarrow> bool" where
  "py_isdecimal c = (let n = (of_char c :: nat) in 48 \<le> n \<and> n \<le> 57)"

definition py_isdigit :: "char \<Rightarrow> bool" where
  "py_isdigit c =
     (let n = (of_char c :: nat) in py_isdecimal c \<or> n = 178 \<or> n = 179 \<or> n = 185)"

text \<open>\<open>int(s)\<close> on a string of digits: \<open>None\<close> stands for the \<open>ValueError\<close>.\<close>

definition py_int :: "string \<Rightarrow> nat option" where
  "py_int s =
     (if s = [] \<or> \<not> list_all py_isdecimal s then None
      else Some (foldl (\<lambda>a c. 10 * a + (of_char c - 48)) 0 s))"

text \<open>\<open>str(v)\<close> inside an f-string, for a value that is a string or \<open>None\<close>.\<close>

definition py_str :: "string option \<Rightarrow> string" where
  "py_str v = (case v of None \<Rightarrow> ''None'' | Some t \<Rightarrow> t)"

section \<open>Data model\<close>

text \<open>The value stored in \<open>WAITING_FOR_SCAN\<close> under a register number.\<close>

record pending =
  name :: string
  timestamp :: real
  row_index :: nat

text \<open>The two keys the handlers keep in the Flask session of the requesting client.\<close>

record session =
  waiting_reg_no :: "string option"
  linked_reg_no :: "string option"

text \<open>
  The worksheet is an external store. The state keeps the calls on it that returned
  normally, in order: \<open>append_row\<close>, \<open>update_cell\<close> and \<open>cell\<close>.
\<close>

datatype sheet_call =
  Append_row "string list"
| Update_cell nat nat string
| Read_cell nat nat

text \<open>
  \<open>WAITING_FOR_SCAN\<close> is a Python dict: an association list in insertion order, where
  assigning to a present key replaces the value in place (\<open>AList.update\<close>) and
  \<open>pop\<close> removes the key (\<open>AList.delete\<close>). The Flask session is a signed cookie of
  the client that sends the request, so there is one session per client.
\<close>

record state =
  WAITING_FOR_SCAN :: "(string \<times> pending) list"
  sessions :: "nat \<Rightarrow> session"
  sheet_calls :: "sheet_call list"

text \<open>
  What the outside world answers during one request: the clock, the formatted date,
  whether \<open>get_sheet\<close> obtains the worksheet, and the outcome of each worksheet call
  (\<open>Inl e\<close> and \<open>Some e\<close>: the call raises an exception whose text is \<open>e\<close>).
  \<open>append_reply = Inr r\<close> is a result whose \<open>updates.updatedRange\<close> is \<open>r\<close>;
  \<open>cell_reply = Inr v\<close> is a cell whose \<open>value\<close> is \<open>v\<close>.
\<close>

record env =
  now :: real
  date_added :: string
  sheet_up :: bool
  append_reply :: "string + string"
  update_reply :: "string option"
  cell_reply :: "string + string option"

datatype jval = JStr string | JNull

text \<open>A JSON body with its HTTP status, or an exception that no handler catches.\<close>

datatype response =
  Response "(string \<times> jval) list" nat
| Uncaught string

definition jsonify :: "string option \<Rightarrow> jval" where
  "jsonify v = (case v of None \<Rightarrow> JNull | Some t \<Rightarrow> JStr t)"

definition TIMEOUT_SECONDS :: real where
  "TIMEOUT_SECONDS = 300"

definition RFID_UID_COLUMN :: nat where
  "RFID_UID_COLUMN = 3"

section \<open>The handlers\<close>

text \<open>
  \<open>link_uid_to_student\<close> returns the pair \<open>(success, text)\<close> of the source, and the
  calls on the worksheet extended by those that returned.
\<close>

definition link_uid_to_student ::
  "nat \<Rightarrow> string \<Rightarrow> string \<Rightarrow> env \<Rightarrow> sheet_call list \<Rightarrow> (bool \<times> string option) \<times> sheet_call list"
where
  "link_uid_to_student row rfid_uid student_name e calls =
     (if \<not> sheet_up e then ((False, Some ''Database connection failed.''), calls)
      else case update_reply e of
        Some ex \<Rightarrow> ((False, Some (''Failed to update database. Error: '' @ ex)), calls)
      | None \<Rightarrow>
          (let calls1 = calls @ [Update_cell row RFID_UID_COLUMN rfid_uid]
           in case cell_reply e of
                Inl ex \<Rightarrow> ((False, Some (''Failed to update database. Error: '' @ ex)), calls1)
              | Inr v \<Rightarrow> ((True, v), calls1 @ [Read_cell row 2])))"

text \<open>
  \<open>register\<close>: the two form fields are \<open>None\<close> when the request lacks them, and
  \<open>.strip()\<close> on \<open>None\<close> raises \<open>AttributeError\<close> outside every \<open>try\<close>.
\<close>

definition register ::
  "nat \<Rightarrow> string option \<Rightarrow> string option \<Rightarrow> env \<Rightarrow> state \<Rightarrow> response \<times> state"
where
  "register caller name_field reg_no_field e s =
     (case name_field of
        None \<Rightarrow> (Uncaught ''AttributeError'', s)
      | Some n0 \<Rightarrow>
     (case reg_no_field of
        None \<Rightarrow> (Uncaught ''AttributeError'', s)
      | Some r0 \<Rightarrow>
     (let nm = strip n0; reg_no = strip r0
      in if nm = [] \<or> reg_no = [] then
           (Response [(''status'', JStr ''error''),
                      (''message'', JStr ''Name and Register Number are required.'')] 200, s)
         else if \<not> sheet_up e then
           (Response [(''status'', JStr ''error''),
                      (''message'', JStr ''Could not connect to database.'')] 500, s)
         else
          (case append_reply e of
             Inl ex \<Rightarrow>
               (Response [(''status'', JStr ''error''),
                          (''message'', JStr (''Failed to save registration data: '' @ ex))] 500, s)
           | Inr added_range \<Rightarrow>
              (let s1 = s\<lparr>sheet_calls := sheet_calls s @ [Append_row [reg_no, nm, '''', date_added e]]\<rparr>
               in case py_int (filter py_isdigit added_range) of
                    None \<Rightarrow>
                      (Response [(''status'', JStr ''error''),
                                 (''message'', JStr (''Failed to save registration data: ''
                                    @ ''invalid literal for int() with base 10: ''
                                    @ [CHR 0x27] @ filter py_isdigit added_range @ [CHR 0x27]))] 500, s1)
                  | Some new_row_index \<Rightarrow>
                      (Response [(''status'', JStr ''waiting''),
                                 (''message'', JStr (''Student '' @ nm @ '' registered. Waiting for RFID scan...'')),
                                 (''reg_no'', JStr reg_no)] 200,
                       s1\<lparr>WAITING_FOR_SCAN :=
                            AList.update reg_no
                              \<lparr>name = nm, timestamp = now e, row_index = new_row_index\<rparr>
                              (WAITING_FOR_SCAN s1),
                          sessions := (sessions s1)
                            (caller := (sessions s1 caller)\<lparr>waiting_reg_no := Some reg_no\<rparr>)\<rparr>))))))"

text \<open>\<open>check_status\<close>: \<open>reg_no\<close> is the path segment of the URL, taken as it is.\<close>

definition check_status :: "nat \<Rightarrow> string \<Rightarrow> env \<Rightarrow> state \<Rightarrow> response \<times> state" where
  "check_status caller reg_no e s =
     (case map_of (WAITING_FOR_SCAN s) reg_no of
        None \<Rightarrow>
          (if linked_reg_no (sessions s caller) = Some reg_no then
             (Response [(''status'', JStr ''linked''),
                        (''message'', JStr ''Card linked successfully!'')] 200,
              s\<lparr>sessions := (sessions s)
                   (caller := (sessions s caller)\<lparr>linked_reg_no := None\<rparr>)\<rparr>)
           else
             (Response [(''status'', JStr ''error''),
                        (''message'', JStr ''Session expired or invalid.'')] 200, s))
      | Some student \<Rightarrow>
          (if now e - timestamp student > TIMEOUT_SECONDS then
             (Response [(''status'', JStr ''timeout''),
                        (''message'', JStr ''Linking session timed out.'')] 408,
              s\<lparr>WAITING_FOR_SCAN := AList.delete reg_no (WAITING_FOR_SCAN s),
                sessions := (sessions s)
                   (caller := (sessions s caller)\<lparr>waiting_reg_no := None\<rparr>)\<rparr>)
           else
             (Response [(''status'', JStr ''waiting''),
                        (''message'', JStr ''Still waiting for RFID scan...'')] 200, s)))"

text \<open>
  \<open>min(d, key=...)\<close> walks the dict in insertion order and keeps the first item whose
  key value is smallest: a later item replaces the best one only when strictly smaller.
\<close>

fun py_min :: "(string \<times> pending) \<Rightarrow> (string \<times> pending) list \<Rightarrow> (string \<times> pending)" where
  "py_min best [] = best"
| "py_min best (x # xs) =
     (if timestamp (snd x) < timestamp (snd best) then py_min x xs else py_min best xs)"

text \<open>
  The JSON body of \<open>/link_rfid\<close>: not an object at all, an object without the key
  \<open>rfid_uid\<close> (\<open>data.get\<close> then gives the empty string), the key with a string, or the
  key with a value that has no \<open>strip\<close>.
\<close>

datatype scan_body = Bad_body | Uid_absent | Uid_str string | Uid_other

definition rfid_uid_of :: "scan_body \<Rightarrow> string option" where
  "rfid_uid_of body =
     (case body of
        Bad_body \<Rightarrow> None
      | Uid_absent \<Rightarrow> Some (strip '''')
      | Uid_str u \<Rightarrow> Some (strip u)
      | Uid_other \<Rightarrow> None)"

text \<open>
  \<open>link_rfid\<close>. Inside its \<open>try\<close> nothing raises: the dict is not empty when
  \<open>min\<close> runs, and \<open>link_uid_to_student\<close> catches the exceptions of the worksheet.
\<close>

definition link_rfid :: "nat \<Rightarrow> scan_body \<Rightarrow> env \<Rightarrow> state \<Rightarrow> response \<times> state" where
  "link_rfid caller body e s =
     (case rfid_uid_of body of
        None \<Rightarrow> (Uncaught ''AttributeError'', s)
      | Some rfid_uid \<Rightarrow>
     (case WAITING_FOR_SCAN s of
        [] \<Rightarrow>
          (Response [(''status'', JStr ''error''),
                     (''message'', JStr ''No active linking session found.'')] 404, s)
      | first # others \<Rightarrow>
         (let oldest = py_min first others;
              waiting_reg_no = fst oldest;
              student_data = snd oldest;
              outcome = link_uid_to_student (row_index student_data) rfid_uid
                          (name student_data) e (sheet_calls s);
              success = fst (fst outcome);
              result_name = snd (fst outcome);
              s1 = s\<lparr>sheet_calls := snd outcome\<rparr>
          in if success then
               (Response [(''status'', JStr ''linked''),
                          (''name'', jsonify result_name),
                          (''register_number'', JStr waiting_reg_no),
                          (''message'', JStr (''Card linked to '' @ py_str result_name))] 200,
                s1\<lparr>sessions := (sessions s1)
                      (caller := (sessions s1 caller)\<lparr>linked_reg_no := Some waiting_reg_no\<rparr>),
                   WAITING_FOR_SCAN := AList.delete waiting_reg_no (WAITING_FOR_SCAN s1)\<rparr>)
             else
               (Response [(''status'', JStr ''error''),
                          (''message'', jsonify result_name)] 500, s1))))"

section \<open>Runs of the server\<close>

text \<open>
  Requests are handled one after the other, each with the answers of the outside world
  during it. The server starts with an empty dict and empty sessions.
\<close>

datatype request =
  Register nat "string option" "string option"
| Check_status nat string
| Link_rfid nat scan_body

fun handle :: "request \<Rightarrow> env \<Rightarrow> state \<Rightarrow> response \<times> state" where
  "handle (Register caller name_field reg_no_field) e s = register caller name_field reg_no_field e s"
| "handle (Check_status caller reg_no) e s = check_status caller reg_no e s"
| "handle (Link_rfid caller body) e s = link_rfid caller body e s"

fun run :: "(request \<times> env) list \<Rightarrow> state \<Rightarrow> state" where
  "run [] s = s"
| "run (re # rest) s = run rest (snd (handle (fst re) (snd re) s))"

definition init_state :: state where
  "init_state =
     \<lparr>WAITING_FOR_SCAN = [],
      sessions = (\<lambda>_. \<lparr>waiting_reg_no = None, linked_reg_no = None\<rparr>),
      sheet_calls = []\<rparr>"

section \<open>States and answers used for concrete evaluations\<close>

text \<open>
  \<open>env_ok t v\<close>: the clock reads \<open>t\<close>, the worksheet is reachable, every call on it
  returns, a new row lands in row 5 and the name read back is \<open>v\<close>.
\<close>

definition env_ok :: "real \<Rightarrow> string \<Rightarrow> env" where
  "env_ok t v =
     \<lparr>now = t, date_added = ''2024-01-01 00:00:00'', sheet_up = True,
      append_reply = Inr ''Students!A5'', update_reply = None, cell_reply = Inr (Some v)\<rparr>"

text \<open>\<open>env_down t\<close>: \<open>get_sheet\<close> returns \<open>None\<close>.\<close>

definition env_down :: "real \<Rightarrow> env" where
  "env_down t =
     \<lparr>now = t, date_added = ''2024-01-01 00:00:00'', sheet_up = False,
      append_reply = Inl ''unreachable'', update_reply = Some ''unreachable'',
      cell_reply = Inl ''unreachable''\<rparr>"

text \<open>\<open>env_append_fails t\<close>: the worksheet is reachable and \<open>append_row\<close> raises.\<close>

definition env_append_fails :: "real \<Rightarrow> env" where
  "env_append_fails t =
     \<lparr>now = t, date_added = ''2024-01-01 00:00:00'', sheet_up = True,
      append_reply = Inl ''quota exceeded'', update_reply = None,
      cell_reply = Inr (Some ''Alice'')\<rparr>"

text \<open>One pending registration, made at time 0 by client 1.\<close>

definition one_waiting :: state where
  "one_waiting =
     \<lparr>WAITING_FOR_SCAN = [(''R1'', \<lparr>name = ''Alice'', timestamp = 0, row_index = 5\<rparr>)],
      sessions = (\<lambda>_. \<lparr>waiting_reg_no = None, linked_reg_no = None\<rparr>)
                 (1 := \<lparr>waiting_reg_no = Some ''R1'', linked_reg_no = None\<rparr>),
      sheet_calls = [Append_row [''R1'', ''Alice'', '''', ''2024-01-01 00:00:00'']]\<rparr>"

text \<open>Two pending registrations: \<open>R1\<close> of client 1 at time 0, \<open>R2\<close> of client 3 at time 10.\<close>

definition two_waiting :: state where
  "two_waiting =
     \<lparr>WAITING_FOR_SCAN =
        [(''R1'', \<lparr>name = ''A'', timestamp = 0, row_index = 5\<rparr>),
         (''R2'', \<lparr>name = ''B'', timestamp = 10, row_index = 6\<rparr>)],
      sessions = (\<lambda>_. \<lparr>waiting_reg_no = None, linked_reg_no = None\<rparr>)
                 (1 := \<lparr>waiting_reg_no = Some ''R1'', linked_reg_no = None\<rparr>,
                  3 := \<lparr>waiting_reg_no = Some ''R2'', linked_reg_no = None\<rparr>),
      sheet_calls = [Append_row [''R1'', ''A'', '''', ''2024-01-01 00:00:00''],
                     Append_row [''R2'', ''B'', '''', ''2024-01-01 00:00:10'']]\<rparr>"

text \<open>
  \<open>R1\<close> registered at time 0, \<open>R2\<close> at time 5, then \<open>R1\<close> registered again at time 10:
  \<open>R1\<close> keeps its first place with the new timestamp and row, so the oldest entry,
  \<open>R2\<close>, comes second.
\<close>

definition overwritten_waiting :: state where
  "overwritten_waiting =
     \<lparr>WAITING_FOR_SCAN =
        [(''R1'', \<lparr>name = ''A'', timestamp = 10, row_index = 7\<rparr>),
         (''R2'', \<lparr>name = ''B'', timestamp = 5, row_index = 6\<rparr>)],
      sessions = (\<lambda>_. \<lparr>waiting_reg_no = None, linked_reg_no = None\<rparr>)
                 (1 := \<lparr>waiting_reg_no = Some ''R1'', linked_reg_no = None\<rparr>,
                  3 := \<lparr>waiting_reg_no = Some ''R2'', linked_reg_no = None\<rparr>),
      sheet_calls = [Append_row [''R1'', ''A'', '''', ''2024-01-01 00:00:00''],
                     Append_row [''R2'', ''B'', '''', ''2024-01-01 00:00:05''],
                     Append_row [''R1'', ''A'', '''', ''2024-01-01 00:00:10'']]\<rparr>"

section \<open>The oldest entry\<close>

lemma py_min_mem: "py_min b xs \<in> set (b # xs)"
  by (induction xs arbitrary: b) auto

lemma py_min_le_best: "timestamp (snd (py_min b xs)) \<le> timestamp (snd b)"
proof (induction xs arbitrary: b)
  case Nil
  show ?case by simp
next
  case (Cons x xs)
  show ?case
  proof (cases "timestamp (snd x) < timestamp (snd b)")
    case True
    have "timestamp (snd (py_min x xs)) \<le> timestamp (snd x)" by (rule Cons.IH)
    with True show ?thesis by simp
  next
    case False
    with Cons.IH [of b] show ?thesis by simp
  qed
qed

lemma py_min_le: "x \<in> set (b # xs) \<Longrightarrow> timestamp (snd (py_min b xs)) \<le> timestamp (snd x)"
proof (induction xs arbitrary: b)
  case Nil
  then show ?case by simp
next
  case (Cons y ys)
  show ?case
  proof (cases "timestamp (snd y) < timestamp (snd b)")
    case True
    from Cons.prems have "x = b \<or> x \<in> set (y # ys)" by auto
    then show ?thesis
    proof
      assume "x = b"
      with True py_min_le_best [of y ys] show ?thesis by simp
    next
      assume "x \<in> set (y # ys)"
      from Cons.IH [OF this] True show ?thesis by simp
    qed
  next
    case False
    from Cons.prems have "x = y \<or> x \<in> set (b # ys)" by auto
    then show ?thesis
    proof
      assume "x = y"
      with False py_min_le_best [of b ys] show ?thesis by simp
    next
      assume "x \<in> set (b # ys)"
      from Cons.IH [OF this] False show ?thesis by simp
    qed
  qed
qed

section \<open>Scan resolution\<close>

lemma link_rfid_success:
  assumes "WAITING_FOR_SCAN s = first # others" and "rfid_uid_of body = Some uid"
    and "sheet_up e" and "update_reply e = None" and "cell_reply e = Inr v"
  shows "link_rfid caller body e s =
     (Response [(''status'', JStr ''linked''),
                (''name'', jsonify v),
                (''register_number'', JStr (fst (py_min first others))),
                (''message'', JStr (''Card linked to '' @ py_str v))] 200,
      s\<lparr>sheet_calls := sheet_calls s @
            [Update_cell (row_index (snd (py_min first others))) 3 uid,
             Read_cell (row_index (snd (py_min first others))) 2],
        sessions := (sessions s)
           (caller := (sessions s caller)\<lparr>linked_reg_no := Some (fst (py_min first others))\<rparr>),
        WAITING_FOR_SCAN := AList.delete (fst (py_min first others)) (WAITING_FOR_SCAN s)\<rparr>)"
  using assms
  by (simp add: link_rfid_def link_uid_to_student_def RFID_UID_COLUMN_def Let_def)

lemma link_rfid_failure:
  assumes "WAITING_FOR_SCAN s = first # others" and "rfid_uid_of body = Some uid"
    and "\<not> sheet_up e \<or> update_reply e \<noteq> None \<or> (\<exists>ex. cell_reply e = Inl ex)"
  shows "\<exists>reason. fst (link_rfid caller body e s) =
            Response [(''status'', JStr ''error''), (''message'', JStr reason)] 500"
    and "WAITING_FOR_SCAN (snd (link_rfid caller body e s)) = WAITING_FOR_SCAN s"
    and "sessions (snd (link_rfid caller body e s)) = sessions s"
  using assms
  by (auto simp add: link_rfid_def link_uid_to_student_def RFID_UID_COLUMN_def Let_def jsonify_def
      split: option.splits sum.splits)

text \<open>
  C7. A scan that arrives while \<open>WAITING_FOR_SCAN\<close> is empty is answered with the error
  "No active linking session found." and HTTP status 404, and the state (the dict, the
  sessions and the worksheet calls) is the one before the request.
\<close>

theorem scan_with_empty_registry:
  assumes "WAITING_FOR_SCAN s = []" and "rfid_uid_of body = Some uid"
  shows "link_rfid caller body e s =
     (Response [(''status'', JStr ''error''),
                (''message'', JStr ''No active linking session found.'')] 404, s)"
  using assms by (simp add: link_rfid_def)

theorem scan_with_empty_registry_witness:
  "WAITING_FOR_SCAN init_state = []
   \<and> rfid_uid_of (Uid_str ''UID123'') = Some ''UID123''
   \<and> link_rfid 2 (Uid_str ''UID123'') (env_ok 1 ''Alice'') init_state =
     (Response [(''status'', JStr ''error''),
                (''message'', JStr ''No active linking session found.'')] 404, init_state)"
proof -
  have h1: "WAITING_FOR_SCAN init_state = []"
    by (simp add: init_state_def)
  have h2: "rfid_uid_of (Uid_str ''UID123'') = Some ''UID123''"
    by (simp add: rfid_uid_of_def strip_def py_isspace_def)
  from scan_with_empty_registry [OF h1 h2] h1 h2 show ?thesis by simp
qed


lemma delete_as_filter: "AList.delete k al = filter (\<lambda>x. fst x \<noteq> k) al"
  by (induction al) (auto simp add: AList.delete_eq)



section \<open>How an entry leaves the dict\<close>

lemma register_keeps_keys:
  "k \<in> fst ` set (WAITING_FOR_SCAN s) \<Longrightarrow>
   k \<in> fst ` set (WAITING_FOR_SCAN (snd (register caller name_field reg_no_field e s)))"
  by (simp add: register_def Let_def AList.dom_update split: option.splits sum.splits)

lemma check_status_removes:
  assumes "k \<in> fst ` set (WAITING_FOR_SCAN s)"
    and "k \<notin> fst ` set (WAITING_FOR_SCAN (snd (check_status caller reg_no e s)))"
  shows "reg_no = k \<and> fst (check_status caller reg_no e s) =
           Response [(''status'', JStr ''timeout''),
                     (''message'', JStr ''Linking session timed out.'')] 408"
proof (cases "map_of (WAITING_FOR_SCAN s) reg_no")
  case None
  with assms show ?thesis by (simp add: check_status_def split: if_splits)
next
  case (Some student)
  show ?thesis
  proof (cases "now e - timestamp student > TIMEOUT_SECONDS")
    case True
    with Some assms(2)
    have "k \<notin> fst ` set (AList.delete reg_no (WAITING_FOR_SCAN s))"
      by (simp add: check_status_def)
    with assms(1) have "reg_no = k"
      by (auto simp add: delete_as_filter)
    with Some True show ?thesis by (simp add: check_status_def)
  next
    case False
    with Some assms show ?thesis by (simp add: check_status_def)
  qed
qed

lemma link_rfid_removes:
  assumes "k \<in> fst ` set (WAITING_FOR_SCAN s)"
    and "k \<notin> fst ` set (WAITING_FOR_SCAN (snd (link_rfid caller body e s)))"
  shows "\<exists>v. fst (link_rfid caller body e s) =
           Response [(''status'', JStr ''linked''),
                     (''name'', jsonify v),
                     (''register_number'', JStr k),
                     (''message'', JStr (''Card linked to '' @ py_str v))] 200"
proof (cases "rfid_uid_of body")
  case None
  with assms show ?thesis by (simp add: link_rfid_def)
next
  case (Some uid)
  from assms(1) obtain first others where reg: "WAITING_FOR_SCAN s = first # others"
    by (cases "WAITING_FOR_SCAN s") auto
  show ?thesis
  proof (cases "sheet_up e \<and> update_reply e = None \<and> (\<exists>v. cell_reply e = Inr v)")
    case True
    then obtain v where ok: "sheet_up e" "update_reply e = None" "cell_reply e = Inr v"
      by blast
    note run = link_rfid_success [OF reg Some ok, of caller]
    from run assms(2)
    have "k \<notin> fst ` set (AList.delete (fst (py_min first others)) (WAITING_FOR_SCAN s))"
      by simp
    with assms(1) have "fst (py_min first others) = k"
      by (auto simp add: delete_as_filter)
    with run show ?thesis by auto
  next
    case False
    then have "\<not> sheet_up e \<or> update_reply e \<noteq> None \<or> (\<exists>ex. cell_reply e = Inl ex)"
      by (cases "cell_reply e") auto
    from link_rfid_failure(2) [OF reg Some this, of caller] assms show ?thesis by simp
  qed
qed

lemma removal_only_by_link_or_timeout:
  assumes "k \<in> fst ` set (WAITING_FOR_SCAN t)"
    and "k \<notin> fst ` set (WAITING_FOR_SCAN (snd (handle rq e t)))"
  shows "(\<exists>c b v. rq = Link_rfid c b \<and> fst (handle rq e t) =
             Response [(''status'', JStr ''linked''),
                       (''name'', jsonify v),
                       (''register_number'', JStr k),
                       (''message'', JStr (''Card linked to '' @ py_str v))] 200)
       \<or> (\<exists>c. rq = Check_status c k \<and> fst (handle rq e t) =
             Response [(''status'', JStr ''timeout''),
                       (''message'', JStr ''Linking session timed out.'')] 408)"
proof (cases rq)
  case (Register c n r)
  with assms register_keeps_keys [of k t c n r e] show ?thesis by simp
next
  case (Check_status c r)
  with assms check_status_removes [of k t c r e] show ?thesis by auto
next
  case (Link_rfid c b)
  with assms link_rfid_removes [of k t c b e] show ?thesis by auto
qed

text \<open>
  C4. When the worksheet update fails during a scan (no worksheet, \<open>update_cell\<close> raises or
  the read-back raises), the scan is answered with an error message and HTTP status 500,
  and \<open>WAITING_FOR_SCAN\<close> is the very list it was: the selected entry keeps its key, name,
  timestamp, row index and place, and the sessions are untouched. Under any request, a key
  leaves the dict only when a scan answers "linked" for it or a status poll for it answers
  "timeout".
\<close>

theorem persistence_failure_keeps_entry:
  assumes "WAITING_FOR_SCAN s = first # others" and "rfid_uid_of body = Some uid"
    and "\<not> sheet_up e \<or> update_reply e \<noteq> None \<or> (\<exists>ex. cell_reply e = Inl ex)"
  shows "(\<exists>reason. fst (link_rfid caller body e s) =
            Response [(''status'', JStr ''error''), (''message'', JStr reason)] 500)
    \<and> WAITING_FOR_SCAN (snd (link_rfid caller body e s)) = WAITING_FOR_SCAN s
    \<and> length (WAITING_FOR_SCAN (snd (link_rfid caller body e s))) = length (WAITING_FOR_SCAN s)
    \<and> sessions (snd (link_rfid caller body e s)) = sessions s
    \<and> (\<forall>rq e' t k. k \<in> fst ` set (WAITING_FOR_SCAN t)
           \<and> k \<notin> fst ` set (WAITING_FOR_SCAN (snd (handle rq e' t))) \<longrightarrow>
         (\<exists>c b v. rq = Link_rfid c b \<and> fst (handle rq e' t) =
             Response [(''status'', JStr ''linked''),
                       (''name'', jsonify v),
                       (''register_number'', JStr k),
                       (''message'', JStr (''Card linked to '' @ py_str v))] 200)
       \<or> (\<exists>c. rq = Check_status c k \<and> fst (handle rq e' t) =
             Response [(''status'', JStr ''timeout''),
                       (''message'', JStr ''Linking session timed out.'')] 408))"
proof -
  note fail = link_rfid_failure [OF assms, of caller]
  have only: "\<forall>rq e' t k. k \<in> fst ` set (WAITING_FOR_SCAN t)
           \<and> k \<notin> fst ` set (WAITING_FOR_SCAN (snd (handle rq e' t))) \<longrightarrow>
         (\<exists>c b v. rq = Link_rfid c b \<and> fst (handle rq e' t) =
             Response [(''status'', JStr ''linked''),
                       (''name'', jsonify v),
                       (''register_number'', JStr k),
                       (''message'', JStr (''Card linked to '' @ py_str v))] 200)
       \<or> (\<exists>c. rq = Check_status c k \<and> fst (handle rq e' t) =
             Response [(''status'', JStr ''timeout''),
                       (''message'', JStr ''Linking session timed out.'')] 408)"
    using removal_only_by_link_or_timeout by blast
  from fail(1) fail(2) fail(3) only show ?thesis by simp
qed

theorem persistence_failure_keeps_entry_witness:
  "WAITING_FOR_SCAN one_waiting = [(''R1'', \<lparr>name = ''Alice'', timestamp = 0, row_index = 5\<rparr>)]
   \<and> rfid_uid_of (Uid_str ''UID123'') = Some ''UID123''
   \<and> \<not> sheet_up (env_down 1)
   \<and> fst (link_rfid 2 (Uid_str ''UID123'') (env_down 1) one_waiting) =
        Response [(''status'', JStr ''error''),
                  (''message'', JStr ''Database connection failed.'')] 500
   \<and> WAITING_FOR_SCAN (snd (link_rfid 2 (Uid_str ''UID123'') (env_down 1) one_waiting)) =
        [(''R1'', \<lparr>name = ''Alice'', timestamp = 0, row_index = 5\<rparr>)]"
proof -
  have h1: "WAITING_FOR_SCAN one_waiting =
      (''R1'', \<lparr>name = ''Alice'', timestamp = 0, row_index = 5\<rparr>) # []"
    by (simp add: one_waiting_def)
  have h2: "rfid_uid_of (Uid_str ''UID123'') = Some ''UID123''"
    by (simp add: rfid_uid_of_def strip_def py_isspace_def)
  have h3: "\<not> sheet_up (env_down 1) \<or> update_reply (env_down 1) \<noteq> None
      \<or> (\<exists>ex. cell_reply (env_down 1) = Inl ex)"
    by (simp add: env_down_def)
  have resp: "fst (link_rfid 2 (Uid_str ''UID123'') (env_down 1) one_waiting) =
        Response [(''status'', JStr ''error''),
                  (''message'', JStr ''Database connection failed.'')] 500"
    using h1 h2
    by (simp add: link_rfid_def link_uid_to_student_def env_down_def jsonify_def Let_def)
  have down: "\<not> sheet_up (env_down 1)" by (simp add: env_down_def)
  from persistence_failure_keeps_entry [OF h1 h2 h3, of 2] h1 h2 resp down
  show ?thesis by simp
qed

section \<open>What a scan does not look at\<close>

lemma link_rfid_ignores_uid:
  "fst (link_rfid caller (Uid_str u) e s) = fst (link_rfid caller (Uid_str u') e s)
   \<and> WAITING_FOR_SCAN (snd (link_rfid caller (Uid_str u) e s)) =
       WAITING_FOR_SCAN (snd (link_rfid caller (Uid_str u') e s))
   \<and> sessions (snd (link_rfid caller (Uid_str u) e s)) =
       sessions (snd (link_rfid caller (Uid_str u') e s))"
  by (simp add: link_rfid_def link_uid_to_student_def rfid_uid_of_def Let_def
      split: list.splits option.splits sum.splits)

lemma link_rfid_ignores_clock:
  "link_rfid caller body (e\<lparr>now := t\<rparr>) s = link_rfid caller body e s"
  by (simp add: link_rfid_def link_uid_to_student_def Let_def
      split: list.splits option.splits sum.splits)

text \<open>
  C10. \<open>link_rfid\<close> does not validate the scanned code. When \<open>rfid_uid\<close> is empty after
  trimming (or absent) and \<open>WAITING_FOR_SCAN\<close> is not empty, a scan whose worksheet calls
  return links the oldest pending entry as usual: the entry it takes is pending and no
  pending entry has a smaller timestamp, the answer is "linked" for its register number,
  the entry is popped, and the call that returned on the worksheet is \<open>update_cell\<close> of
  the entry's row, column 3, with the empty string. The answer, the dict and the sessions
  after a scan are the same for every string sent as \<open>rfid_uid\<close>.
\<close>

theorem blank_uid_is_linked:
  assumes "WAITING_FOR_SCAN s = first # others"
    and "rfid_uid_of body = Some []"
    and "sheet_up e" and "update_reply e = None" and "cell_reply e = Inr v"
    and "oldest = py_min first others"
    and "s' = snd (link_rfid caller body e s)"
  shows "oldest \<in> set (WAITING_FOR_SCAN s)
    \<and> (\<forall>x \<in> set (WAITING_FOR_SCAN s). timestamp (snd oldest) \<le> timestamp (snd x))
    \<and> fst (link_rfid caller body e s) =
        Response [(''status'', JStr ''linked''),
                  (''name'', jsonify v),
                  (''register_number'', JStr (fst oldest)),
                  (''message'', JStr (''Card linked to '' @ py_str v))] 200
    \<and> sheet_calls s' = sheet_calls s @
         [Update_cell (row_index (snd oldest)) 3 '''', Read_cell (row_index (snd oldest)) 2]
    \<and> WAITING_FOR_SCAN s' = AList.delete (fst oldest) (WAITING_FOR_SCAN s)
    \<and> WAITING_FOR_SCAN s' = filter (\<lambda>x. fst x \<noteq> fst oldest) (WAITING_FOR_SCAN s)
    \<and> linked_reg_no (sessions s' caller) = Some (fst oldest)
    \<and> (\<forall>u u'. fst (link_rfid caller (Uid_str u) e s) = fst (link_rfid caller (Uid_str u') e s)
          \<and> WAITING_FOR_SCAN (snd (link_rfid caller (Uid_str u) e s)) =
              WAITING_FOR_SCAN (snd (link_rfid caller (Uid_str u') e s))
          \<and> sessions (snd (link_rfid caller (Uid_str u) e s)) =
              sessions (snd (link_rfid caller (Uid_str u') e s)))"
proof -
  have mem: "oldest \<in> set (WAITING_FOR_SCAN s)"
    using py_min_mem [of first others] assms(1,6) by simp
  have least: "\<forall>x \<in> set (WAITING_FOR_SCAN s). timestamp (snd oldest) \<le> timestamp (snd x)"
  proof
    fix x
    assume "x \<in> set (WAITING_FOR_SCAN s)"
    then have "x \<in> set (first # others)" using assms(1) by simp
    from py_min_le [OF this] show "timestamp (snd oldest) \<le> timestamp (snd x)"
      using assms(6) by simp
  qed
  note run = link_rfid_success [OF assms(1,2,3,4,5), of caller]
  have a: "fst (link_rfid caller body e s) =
        Response [(''status'', JStr ''linked''),
                  (''name'', jsonify v),
                  (''register_number'', JStr (fst oldest)),
                  (''message'', JStr (''Card linked to '' @ py_str v))] 200"
    using run assms(6) by simp
  have b: "sheet_calls s' = sheet_calls s @
         [Update_cell (row_index (snd oldest)) 3 '''', Read_cell (row_index (snd oldest)) 2]"
    using run assms(6,7) by simp
  have c: "WAITING_FOR_SCAN s' = AList.delete (fst oldest) (WAITING_FOR_SCAN s)"
    using run assms(6,7) by simp
  have c': "WAITING_FOR_SCAN s' = filter (\<lambda>x. fst x \<noteq> fst oldest) (WAITING_FOR_SCAN s)"
    using c by (simp add: delete_as_filter)
  have d: "linked_reg_no (sessions s' caller) = Some (fst oldest)"
    using run assms(6,7) by simp
  from mem least a b c c' d link_rfid_ignores_uid [of caller _ e s] show ?thesis by blast
qed

theorem blank_uid_is_linked_witness:
  "WAITING_FOR_SCAN overwritten_waiting =
      [(''R1'', \<lparr>name = ''A'', timestamp = 10, row_index = 7\<rparr>),
       (''R2'', \<lparr>name = ''B'', timestamp = 5, row_index = 6\<rparr>)]
   \<and> rfid_uid_of (Uid_str ''  '') = Some ''''
   \<and> py_min (''R1'', \<lparr>name = ''A'', timestamp = 10, row_index = 7\<rparr>)
        [(''R2'', \<lparr>name = ''B'', timestamp = 5, row_index = 6\<rparr>)] =
      (''R2'', \<lparr>name = ''B'', timestamp = 5, row_index = 6\<rparr>)
   \<and> fst (link_rfid 2 (Uid_str ''  '') (env_ok 20 ''B'') overwritten_waiting) =
        Response [(''status'', JStr ''linked''),
                  (''name'', JStr ''B''),
                  (''register_number'', JStr ''R2''),
                  (''message'', JStr ''Card linked to B'')] 200
   \<and> sheet_calls (snd (link_rfid 2 (Uid_str ''  '') (env_ok 20 ''B'') overwritten_waiting)) =
        [Append_row [''R1'', ''A'', '''', ''2024-01-01 00:00:00''],
         Append_row [''R2'', ''B'', '''', ''2024-01-01 00:00:05''],
         Append_row [''R1'', ''A'', '''', ''2024-01-01 00:00:10''],
         Update_cell 6 3 '''', Read_cell 6 2]
   \<and> WAITING_FOR_SCAN (snd (link_rfid 2 (Uid_str ''  '') (env_ok 20 ''B'') overwritten_waiting)) =
        [(''R1'', \<lparr>name = ''A'', timestamp = 10, row_index = 7\<rparr>)]"
proof -
  have h1: "WAITING_FOR_SCAN overwritten_waiting =
      (''R1'', \<lparr>name = ''A'', timestamp = 10, row_index = 7\<rparr>) #
      [(''R2'', \<lparr>name = ''B'', timestamp = 5, row_index = 6\<rparr>)]"
    by (simp add: overwritten_waiting_def)
  have h2: "rfid_uid_of (Uid_str ''  '') = Some []"
    by (simp add: rfid_uid_of_def strip_def py_isspace_def)
  have h3: "sheet_up (env_ok 20 ''B'')" and h4: "update_reply (env_ok 20 ''B'') = None"
    and h5: "cell_reply (env_ok 20 ''B'') = Inr (Some ''B'')"
    by (simp_all add: env_ok_def)
  have h6: "(''R2'', \<lparr>name = ''B'', timestamp = 5, row_index = 6\<rparr>) =
      py_min (''R1'', \<lparr>name = ''A'', timestamp = 10, row_index = 7\<rparr>)
        [(''R2'', \<lparr>name = ''B'', timestamp = 5, row_index = 6\<rparr>)]"
    by simp
  have calls: "sheet_calls overwritten_waiting =
      [Append_row [''R1'', ''A'', '''', ''2024-01-01 00:00:00''],
       Append_row [''R2'', ''B'', '''', ''2024-01-01 00:00:05''],
       Append_row [''R1'', ''A'', '''', ''2024-01-01 00:00:10'']]"
    by (simp add: overwritten_waiting_def)
  from blank_uid_is_linked [OF h1 h2 h3 h4 h5 h6 refl, of 2] h1 h2 h6 calls
  show ?thesis by (simp add: jsonify_def py_str_def)
qed

text \<open>
  C2. The claim fails on the code. \<open>TIMEOUT_SECONDS\<close> is the window of the linking
  process, and \<open>check_status\<close> enforces it; \<open>link_rfid\<close> never reads the clock. In the state
  with the single entry \<open>R1\<close> made at time 0, at clock 1000 a status poll for \<open>R1\<close> evicts it
  and answers "timeout" with status 408, while a scan in the same state at the same clock
  links it and writes the scanned code into its row. With two pending entries made at
  times 0 and 10, both expired at clock 1000, the scan is not answered with the 404 error
  and evicts nothing: it links \<open>R1\<close> and leaves the expired \<open>R2\<close> pending.
\<close>

theorem stale_entry_is_linked:
  "WAITING_FOR_SCAN one_waiting = [(''R1'', \<lparr>name = ''Alice'', timestamp = 0, row_index = 5\<rparr>)]
   \<and> now (env_ok 1000 ''Alice'') - timestamp \<lparr>name = ''Alice'', timestamp = 0, row_index = 5\<rparr>
        > TIMEOUT_SECONDS
   \<and> fst (check_status 1 ''R1'' (env_ok 1000 ''Alice'') one_waiting) =
        Response [(''status'', JStr ''timeout''),
                  (''message'', JStr ''Linking session timed out.'')] 408
   \<and> fst (link_rfid 2 (Uid_str ''UID123'') (env_ok 1000 ''Alice'') one_waiting) =
        Response [(''status'', JStr ''linked''),
                  (''name'', JStr ''Alice''),
                  (''register_number'', JStr ''R1''),
                  (''message'', JStr ''Card linked to Alice'')] 200
   \<and> fst (link_rfid 2 (Uid_str ''UID123'') (env_ok 1000 ''Alice'') one_waiting) \<noteq>
        Response [(''status'', JStr ''error''),
                  (''message'', JStr ''No active linking session found.'')] 404
   \<and> sheet_calls (snd (link_rfid 2 (Uid_str ''UID123'') (env_ok 1000 ''Alice'') one_waiting)) =
        [Append_row [''R1'', ''Alice'', '''', ''2024-01-01 00:00:00''],
         Update_cell 5 3 ''UID123'', Read_cell 5 2]
   \<and> WAITING_FOR_SCAN two_waiting =
        [(''R1'', \<lparr>name = ''A'', timestamp = 0, row_index = 5\<rparr>),
         (''R2'', \<lparr>name = ''B'', timestamp = 10, row_index = 6\<rparr>)]
   \<and> now (env_ok 1000 ''A'') - timestamp \<lparr>name = ''A'', timestamp = 0, row_index = 5\<rparr>
        > TIMEOUT_SECONDS
   \<and> now (env_ok 1000 ''A'') - timestamp \<lparr>name = ''B'', timestamp = 10, row_index = 6\<rparr>
        > TIMEOUT_SECONDS
   \<and> fst (link_rfid 2 (Uid_str ''UID123'') (env_ok 1000 ''A'') two_waiting) =
        Response [(''status'', JStr ''linked''),
                  (''name'', JStr ''A''),
                  (''register_number'', JStr ''R1''),
                  (''message'', JStr ''Card linked to A'')] 200
   \<and> WAITING_FOR_SCAN (snd (link_rfid 2 (Uid_str ''UID123'') (env_ok 1000 ''A'') two_waiting)) =
        [(''R2'', \<lparr>name = ''B'', timestamp = 10, row_index = 6\<rparr>)]"
  by (simp add: one_waiting_def two_waiting_def env_ok_def TIMEOUT_SECONDS_def link_rfid_def
      check_status_def link_uid_to_student_def rfid_uid_of_def strip_def py_isspace_def
      RFID_UID_COLUMN_def jsonify_def py_str_def Let_def)

section \<open>Registration\<close>

lemma register_success:
  assumes "strip n0 \<noteq> []" and "strip r0 \<noteq> []" and "sheet_up e"
    and "append_reply e = Inr added_range"
    and "py_int (filter py_isdigit added_range) = Some row"
  shows "register caller (Some n0) (Some r0) e s =
     (Response [(''status'', JStr ''waiting''),
                (''message'', JStr (''Student '' @ strip n0 @ '' registered. Waiting for RFID scan...'')),
                (''reg_no'', JStr (strip r0))] 200,
      s\<lparr>sheet_calls := sheet_calls s @ [Append_row [strip r0, strip n0, '''', date_added e]],
        WAITING_FOR_SCAN :=
          AList.update (strip r0) \<lparr>name = strip n0, timestamp = now e, row_index = row\<rparr>
            (WAITING_FOR_SCAN s),
        sessions := (sessions s)
          (caller := (sessions s caller)\<lparr>waiting_reg_no := Some (strip r0)\<rparr>)\<rparr>)"
  using assms by (simp add: register_def Let_def)

lemma register_insert_needs_append:
  assumes "WAITING_FOR_SCAN (snd (register caller name_field reg_no_field e s)) \<noteq> WAITING_FOR_SCAN s"
  shows "\<exists>n0 r0 added_range row. name_field = Some n0 \<and> reg_no_field = Some r0
      \<and> strip n0 \<noteq> [] \<and> strip r0 \<noteq> [] \<and> sheet_up e \<and> append_reply e = Inr added_range
      \<and> py_int (filter py_isdigit added_range) = Some row"
  using assms
  by (auto simp add: register_def Let_def split: option.splits sum.splits if_splits)

lemma length_update_present:
  "k \<in> fst ` set al \<Longrightarrow> length (AList.update k v al) = length al"
  by (induction al) auto

lemma set_update_subset: "set (AList.update k v al) \<subseteq> insert (k, v) (set al)"
  by (induction al) auto

lemma count_key_distinct:
  "distinct (map fst al) \<Longrightarrow> k \<in> fst ` set al \<Longrightarrow> length (filter (\<lambda>x. fst x = k) al) = 1"
proof (induction al)
  case Nil
  then show ?case by simp
next
  case (Cons x xs)
  show ?case
  proof (cases "fst x = k")
    case True
    with Cons.prems have "k \<notin> fst ` set xs" by auto
    then have "filter (\<lambda>x. fst x = k) xs = []" by (auto simp add: filter_empty_conv)
    with True show ?thesis by simp
  next
    case False
    with Cons.prems Cons.IH show ?thesis by auto
  qed
qed

lemma check_status_registry:
  "WAITING_FOR_SCAN (snd (check_status caller reg_no e s)) = WAITING_FOR_SCAN s
   \<or> WAITING_FOR_SCAN (snd (check_status caller reg_no e s)) =
       AList.delete reg_no (WAITING_FOR_SCAN s)"
  by (simp add: check_status_def split: option.splits)

lemma link_rfid_registry:
  "WAITING_FOR_SCAN (snd (link_rfid caller body e s)) = WAITING_FOR_SCAN s
   \<or> (\<exists>k. WAITING_FOR_SCAN (snd (link_rfid caller body e s)) =
       AList.delete k (WAITING_FOR_SCAN s))"
proof (cases "rfid_uid_of body")
  case None
  then show ?thesis by (simp add: link_rfid_def)
next
  case (Some uid)
  show ?thesis
  proof (cases "WAITING_FOR_SCAN s")
    case Nil
    with Some show ?thesis by (simp add: link_rfid_def)
  next
    case (Cons first others)
    show ?thesis
    proof (cases "sheet_up e \<and> update_reply e = None \<and> (\<exists>v. cell_reply e = Inr v)")
      case True
      then obtain v where ok: "sheet_up e" "update_reply e = None" "cell_reply e = Inr v"
        by blast
      from link_rfid_success [OF Cons Some ok, of caller] show ?thesis by auto
    next
      case False
      then have "\<not> sheet_up e \<or> update_reply e \<noteq> None \<or> (\<exists>ex. cell_reply e = Inl ex)"
        by (cases "cell_reply e") auto
      from link_rfid_failure(2) [OF Cons Some this, of caller] show ?thesis by simp
    qed
  qed
qed

subsection \<open>Every request keeps the keys of the dict distinct\<close>

lemma handle_distinct:
  assumes "distinct (map fst (WAITING_FOR_SCAN s))"
  shows "distinct (map fst (WAITING_FOR_SCAN (snd (handle rq e s))))"
proof (cases rq)
  case (Register c n r)
  with assms show ?thesis
    by (simp add: register_def Let_def AList.distinct_update split: option.splits sum.splits)
next
  case (Check_status c r)
  with assms check_status_registry [of c r e s] show ?thesis
    by (auto simp add: AList.distinct_delete)
next
  case (Link_rfid c b)
  with assms link_rfid_registry [of c b e s] show ?thesis
    by (auto simp add: AList.distinct_delete)
qed

lemma run_distinct:
  "distinct (map fst (WAITING_FOR_SCAN s)) \<Longrightarrow> distinct (map fst (WAITING_FOR_SCAN (run rs s)))"
proof (induction rs arbitrary: s)
  case Nil
  then show ?case by simp
next
  case (Cons x xs)
  from Cons.prems have "distinct (map fst (WAITING_FOR_SCAN (snd (handle (fst x) (snd x) s))))"
    by (rule handle_distinct)
  from Cons.IH [OF this] show ?case by simp
qed

subsection \<open>Every pending entry has its row appended\<close>

lemma handle_calls_grow: "set (sheet_calls s) \<subseteq> set (sheet_calls (snd (handle rq e s)))"
proof (cases rq)
  case (Register c n r)
  then show ?thesis
    by (auto simp add: register_def Let_def split: option.splits sum.splits)
next
  case (Check_status c r)
  then show ?thesis
    by (auto simp add: check_status_def split: option.splits)
next
  case (Link_rfid c b)
  then show ?thesis
    by (auto simp add: link_rfid_def link_uid_to_student_def Let_def
        split: option.splits list.splits sum.splits)
qed

lemma handle_new_entry:
  assumes "(k, p) \<in> set (WAITING_FOR_SCAN (snd (handle rq e s)))"
  shows "(k, p) \<in> set (WAITING_FOR_SCAN s)
       \<or> (\<exists>d. Append_row [k, name p, '''', d] \<in> set (sheet_calls (snd (handle rq e s))))"
proof (cases rq)
  case (Register c n r)
  show ?thesis
  proof (cases "WAITING_FOR_SCAN (snd (register c n r e s)) = WAITING_FOR_SCAN s")
    case True
    with assms Register show ?thesis by simp
  next
    case False
    from register_insert_needs_append [OF this]
    obtain n0 r0 added_range row where ok: "n = Some n0" "r = Some r0"
      "strip n0 \<noteq> []" "strip r0 \<noteq> []" "sheet_up e" "append_reply e = Inr added_range"
      "py_int (filter py_isdigit added_range) = Some row"
      by blast
    note run = register_success [OF ok(3-7), of c s]
    from assms Register ok(1,2) run
    have "(k, p) \<in> set (AList.update (strip r0)
        \<lparr>name = strip n0, timestamp = now e, row_index = row\<rparr> (WAITING_FOR_SCAN s))"
      by simp
    with set_update_subset
    have "(k, p) = (strip r0, \<lparr>name = strip n0, timestamp = now e, row_index = row\<rparr>)
        \<or> (k, p) \<in> set (WAITING_FOR_SCAN s)"
      by fastforce
    then show ?thesis
    proof
      assume "(k, p) = (strip r0, \<lparr>name = strip n0, timestamp = now e, row_index = row\<rparr>)"
      with Register ok(1,2) run show ?thesis by auto
    next
      assume "(k, p) \<in> set (WAITING_FOR_SCAN s)"
      then show ?thesis by simp
    qed
  qed
next
  case (Check_status c r)
  with assms check_status_registry [of c r e s] show ?thesis
    by (auto simp add: delete_as_filter)
next
  case (Link_rfid c b)
  with assms link_rfid_registry [of c b e s] show ?thesis
    by (auto simp add: delete_as_filter)
qed

lemma run_backed:
  assumes "\<forall>k p. (k, p) \<in> set (WAITING_FOR_SCAN s) \<longrightarrow>
             (\<exists>d. Append_row [k, name p, '''', d] \<in> set (sheet_calls s))"
  shows "\<forall>k p. (k, p) \<in> set (WAITING_FOR_SCAN (run rs s)) \<longrightarrow>
             (\<exists>d. Append_row [k, name p, '''', d] \<in> set (sheet_calls (run rs s)))"
  using assms
proof (induction rs arbitrary: s)
  case Nil
  then show ?case by simp
next
  case (Cons x xs)
  have "\<forall>k p. (k, p) \<in> set (WAITING_FOR_SCAN (snd (handle (fst x) (snd x) s))) \<longrightarrow>
     (\<exists>d. Append_row [k, name p, '''', d] \<in> set (sheet_calls (snd (handle (fst x) (snd x) s))))"
  proof (intro allI impI)
    fix k p
    assume "(k, p) \<in> set (WAITING_FOR_SCAN (snd (handle (fst x) (snd x) s)))"
    from handle_new_entry [OF this]
    show "\<exists>d. Append_row [k, name p, '''', d] \<in> set (sheet_calls (snd (handle (fst x) (snd x) s)))"
    proof
      assume "(k, p) \<in> set (WAITING_FOR_SCAN s)"
      with Cons.prems obtain d where "Append_row [k, name p, '''', d] \<in> set (sheet_calls s)"
        by blast
      with handle_calls_grow [of s "fst x" "snd x"] show ?thesis by blast
    next
      assume "\<exists>d. Append_row [k, name p, '''', d] \<in> set (sheet_calls (snd (handle (fst x) (snd x) s)))"
      then show ?thesis .
    qed
  qed
  from Cons.IH [OF this] show ?case by simp
qed

text \<open>
  C6. \<open>register\<close> fails without touching \<open>WAITING_FOR_SCAN\<close>. When the name or the
  register number is empty after trimming, the answer is the error "Name and Register
  Number are required." and the state is unchanged: no row is appended, no entry is
  inserted. When \<open>append_row\<close> raises, the answer is an error with status 500 and the
  state is unchanged. The dict changes only in a request whose \<open>append_row\<close> returned,
  and in every state the server reaches, each pending entry has an appended row that
  carries its register number and its name.
\<close>

theorem register_failure_keeps_registry:
  "(\<forall>n0 r0. name_field = Some n0 \<and> reg_no_field = Some r0
        \<and> (strip n0 = [] \<or> strip r0 = []) \<longrightarrow>
      register caller name_field reg_no_field e s =
        (Response [(''status'', JStr ''error''),
                   (''message'', JStr ''Name and Register Number are required.'')] 200, s))
   \<and> (\<forall>n0 r0 ex. name_field = Some n0 \<and> reg_no_field = Some r0
        \<and> strip n0 \<noteq> [] \<and> strip r0 \<noteq> [] \<and> sheet_up e \<and> append_reply e = Inl ex \<longrightarrow>
      register caller name_field reg_no_field e s =
        (Response [(''status'', JStr ''error''),
                   (''message'', JStr (''Failed to save registration data: '' @ ex))] 500, s))
   \<and> (WAITING_FOR_SCAN (snd (register caller name_field reg_no_field e s)) \<noteq> WAITING_FOR_SCAN s \<longrightarrow>
        sheet_up e \<and> (\<exists>added_range. append_reply e = Inr added_range)
        \<and> (\<exists>row. sheet_calls (snd (register caller name_field reg_no_field e s)) =
                    sheet_calls s @ [Append_row row]))
   \<and> (\<forall>rs k p. (k, p) \<in> set (WAITING_FOR_SCAN (run rs init_state)) \<longrightarrow>
        (\<exists>d. Append_row [k, name p, '''', d] \<in> set (sheet_calls (run rs init_state))))"
proof -
  have a: "\<forall>n0 r0. name_field = Some n0 \<and> reg_no_field = Some r0
        \<and> (strip n0 = [] \<or> strip r0 = []) \<longrightarrow>
      register caller name_field reg_no_field e s =
        (Response [(''status'', JStr ''error''),
                   (''message'', JStr ''Name and Register Number are required.'')] 200, s)"
    by (auto simp add: register_def Let_def)
  have b: "\<forall>n0 r0 ex. name_field = Some n0 \<and> reg_no_field = Some r0
        \<and> strip n0 \<noteq> [] \<and> strip r0 \<noteq> [] \<and> sheet_up e \<and> append_reply e = Inl ex \<longrightarrow>
      register caller name_field reg_no_field e s =
        (Response [(''status'', JStr ''error''),
                   (''message'', JStr (''Failed to save registration data: '' @ ex))] 500, s)"
    by (auto simp add: register_def Let_def)
  have c: "WAITING_FOR_SCAN (snd (register caller name_field reg_no_field e s)) \<noteq> WAITING_FOR_SCAN s \<longrightarrow>
        sheet_up e \<and> (\<exists>added_range. append_reply e = Inr added_range)
        \<and> (\<exists>row. sheet_calls (snd (register caller name_field reg_no_field e s)) =
                    sheet_calls s @ [Append_row row])"
  proof
    assume "WAITING_FOR_SCAN (snd (register caller name_field reg_no_field e s)) \<noteq> WAITING_FOR_SCAN s"
    from register_insert_needs_append [OF this]
    obtain n0 r0 added_range row where ok: "name_field = Some n0" "reg_no_field = Some r0"
      "strip n0 \<noteq> []" "strip r0 \<noteq> []" "sheet_up e" "append_reply e = Inr added_range"
      "py_int (filter py_isdigit added_range) = Some row"
      by blast
    from register_success [OF ok(3-7), of caller s] ok(1,2,5,6)
    show "sheet_up e \<and> (\<exists>added_range. append_reply e = Inr added_range)
        \<and> (\<exists>row. sheet_calls (snd (register caller name_field reg_no_field e s)) =
                    sheet_calls s @ [Append_row row])"
      by simp
  qed
  have "\<forall>k p. (k, p) \<in> set (WAITING_FOR_SCAN init_state) \<longrightarrow>
             (\<exists>d. Append_row [k, name p, '''', d] \<in> set (sheet_calls init_state))"
    by (simp add: init_state_def)
  then have d: "\<forall>rs k p. (k, p) \<in> set (WAITING_FOR_SCAN (run rs init_state)) \<longrightarrow>
        (\<exists>d. Append_row [k, name p, '''', d] \<in> set (sheet_calls (run rs init_state)))"
    using run_backed [of init_state] by blast
  from a b c d show ?thesis by blast
qed

theorem register_failure_keeps_registry_witness:
  "strip ''   '' = []
   \<and> register 1 (Some ''   '') (Some ''R1'') (env_ok 0 ''Alice'') init_state =
       (Response [(''status'', JStr ''error''),
                  (''message'', JStr ''Name and Register Number are required.'')] 200, init_state)
   \<and> strip ''Alice'' \<noteq> [] \<and> strip ''R1'' \<noteq> []
   \<and> sheet_up (env_append_fails 0) \<and> append_reply (env_append_fails 0) = Inl ''quota exceeded''
   \<and> register 1 (Some ''Alice'') (Some ''R1'') (env_append_fails 0) init_state =
       (Response [(''status'', JStr ''error''),
                  (''message'', JStr ''Failed to save registration data: quota exceeded'')] 500,
        init_state)"
proof -
  have h1: "strip ''   '' = []" and h2: "strip ''Alice'' \<noteq> []" and h3: "strip ''R1'' \<noteq> []"
    by (simp_all add: strip_def py_isspace_def)
  have h4: "sheet_up (env_append_fails 0)"
    and h5: "append_reply (env_append_fails 0) = Inl ''quota exceeded''"
    by (simp_all add: env_append_fails_def)
  from register_failure_keeps_registry
    [where name_field = "Some ''   ''" and reg_no_field = "Some ''R1''" and caller = 1
       and e = "env_ok 0 ''Alice''" and s = init_state] h1
  have a: "register 1 (Some ''   '') (Some ''R1'') (env_ok 0 ''Alice'') init_state =
       (Response [(''status'', JStr ''error''),
                  (''message'', JStr ''Name and Register Number are required.'')] 200, init_state)"
    by blast
  from register_failure_keeps_registry
    [where name_field = "Some ''Alice''" and reg_no_field = "Some ''R1''" and caller = 1
       and e = "env_append_fails 0" and s = init_state] h2 h3 h4 h5
  have b: "register 1 (Some ''Alice'') (Some ''R1'') (env_append_fails 0) init_state =
       (Response [(''status'', JStr ''error''),
                  (''message'', JStr (''Failed to save registration data: '' @ ''quota exceeded''))] 500,
        init_state)"
    by blast
  from h1 h2 h3 h4 h5 a b show ?thesis by simp
qed

text \<open>
  C8. Whatever requests the server has handled since it started, \<open>WAITING_FOR_SCAN\<close> holds
  at most one entry per register number. A registration that succeeds for a register
  number stores the new name, the time of this request and the new row index under it,
  replacing what was pending there (the dict keeps its length then), and leaves every
  other key as it was.
\<close>

theorem registry_one_entry_per_id:
  "distinct (map fst (WAITING_FOR_SCAN (run rs init_state)))
   \<and> (\<forall>k. length (filter (\<lambda>x. fst x = k) (WAITING_FOR_SCAN (run rs init_state))) \<le> 1)
   \<and> (\<forall>added_range row s'. strip raw_name \<noteq> [] \<and> strip raw_reg \<noteq> [] \<and> sheet_up e
         \<and> append_reply e = Inr added_range
         \<and> py_int (filter py_isdigit added_range) = Some row
         \<and> s' = snd (register caller (Some raw_name) (Some raw_reg) e s) \<longrightarrow>
       map_of (WAITING_FOR_SCAN s') (strip raw_reg) =
          Some \<lparr>name = strip raw_name, timestamp = now e, row_index = row\<rparr>
       \<and> (\<forall>k. k \<noteq> strip raw_reg \<longrightarrow> map_of (WAITING_FOR_SCAN s') k = map_of (WAITING_FOR_SCAN s) k)
       \<and> (strip raw_reg \<in> fst ` set (WAITING_FOR_SCAN s) \<longrightarrow>
            length (WAITING_FOR_SCAN s') = length (WAITING_FOR_SCAN s)
            \<and> map fst (WAITING_FOR_SCAN s') = map fst (WAITING_FOR_SCAN s))
       \<and> (distinct (map fst (WAITING_FOR_SCAN s)) \<longrightarrow>
            length (filter (\<lambda>x. fst x = strip raw_reg) (WAITING_FOR_SCAN s')) = 1))"
proof -
  have "distinct (map fst (WAITING_FOR_SCAN init_state))"
    by (simp add: init_state_def)
  then have a: "distinct (map fst (WAITING_FOR_SCAN (run rs init_state)))"
    by (rule run_distinct)
  have b: "\<forall>k. length (filter (\<lambda>x. fst x = k) (WAITING_FOR_SCAN (run rs init_state))) \<le> 1"
  proof
    fix k
    show "length (filter (\<lambda>x. fst x = k) (WAITING_FOR_SCAN (run rs init_state))) \<le> 1"
    proof (cases "k \<in> fst ` set (WAITING_FOR_SCAN (run rs init_state))")
      case True
      from count_key_distinct [OF a True] show ?thesis by simp
    next
      case False
      then have "filter (\<lambda>x. fst x = k) (WAITING_FOR_SCAN (run rs init_state)) = []"
        by (auto simp add: filter_empty_conv)
      then show ?thesis by simp
    qed
  qed
  have c: "\<forall>added_range row s'. strip raw_name \<noteq> [] \<and> strip raw_reg \<noteq> [] \<and> sheet_up e
         \<and> append_reply e = Inr added_range
         \<and> py_int (filter py_isdigit added_range) = Some row
         \<and> s' = snd (register caller (Some raw_name) (Some raw_reg) e s) \<longrightarrow>
       map_of (WAITING_FOR_SCAN s') (strip raw_reg) =
          Some \<lparr>name = strip raw_name, timestamp = now e, row_index = row\<rparr>
       \<and> (\<forall>k. k \<noteq> strip raw_reg \<longrightarrow> map_of (WAITING_FOR_SCAN s') k = map_of (WAITING_FOR_SCAN s) k)
       \<and> (strip raw_reg \<in> fst ` set (WAITING_FOR_SCAN s) \<longrightarrow>
            length (WAITING_FOR_SCAN s') = length (WAITING_FOR_SCAN s)
            \<and> map fst (WAITING_FOR_SCAN s') = map fst (WAITING_FOR_SCAN s))
       \<and> (distinct (map fst (WAITING_FOR_SCAN s)) \<longrightarrow>
            length (filter (\<lambda>x. fst x = strip raw_reg) (WAITING_FOR_SCAN s')) = 1)"
  proof (intro allI impI)
    fix added_range row s'
    assume h: "strip raw_name \<noteq> [] \<and> strip raw_reg \<noteq> [] \<and> sheet_up e
         \<and> append_reply e = Inr added_range
         \<and> py_int (filter py_isdigit added_range) = Some row
         \<and> s' = snd (register caller (Some raw_name) (Some raw_reg) e s)"
    then have ok: "strip raw_name \<noteq> []" "strip raw_reg \<noteq> []" "sheet_up e"
      "append_reply e = Inr added_range" "py_int (filter py_isdigit added_range) = Some row"
      by simp_all
    from register_success [OF ok, of caller s] h
    have reg: "WAITING_FOR_SCAN s' =
        AList.update (strip raw_reg) \<lparr>name = strip raw_name, timestamp = now e, row_index = row\<rparr>
          (WAITING_FOR_SCAN s)"
      by simp
    have c1: "map_of (WAITING_FOR_SCAN s') (strip raw_reg) =
          Some \<lparr>name = strip raw_name, timestamp = now e, row_index = row\<rparr>"
      using reg by (simp add: AList.update_conv')
    have c2: "\<forall>k. k \<noteq> strip raw_reg \<longrightarrow> map_of (WAITING_FOR_SCAN s') k = map_of (WAITING_FOR_SCAN s) k"
      using reg by (simp add: AList.update_conv')
    have c3: "strip raw_reg \<in> fst ` set (WAITING_FOR_SCAN s) \<longrightarrow>
            length (WAITING_FOR_SCAN s') = length (WAITING_FOR_SCAN s)
            \<and> map fst (WAITING_FOR_SCAN s') = map fst (WAITING_FOR_SCAN s)"
      using reg by (simp add: length_update_present AList.update_keys)
    have c4: "distinct (map fst (WAITING_FOR_SCAN s)) \<longrightarrow>
            length (filter (\<lambda>x. fst x = strip raw_reg) (WAITING_FOR_SCAN s')) = 1"
    proof
      assume "distinct (map fst (WAITING_FOR_SCAN s))"
      then have "distinct (map fst (WAITING_FOR_SCAN s'))"
        using reg by (simp add: AList.distinct_update)
      moreover have "strip raw_reg \<in> fst ` set (WAITING_FOR_SCAN s')"
        using reg by (simp add: AList.dom_update)
      ultimately show "length (filter (\<lambda>x. fst x = strip raw_reg) (WAITING_FOR_SCAN s')) = 1"
        by (rule count_key_distinct)
    qed
    from c1 c2 c3 c4
    show "map_of (WAITING_FOR_SCAN s') (strip raw_reg) =
          Some \<lparr>name = strip raw_name, timestamp = now e, row_index = row\<rparr>
       \<and> (\<forall>k. k \<noteq> strip raw_reg \<longrightarrow> map_of (WAITING_FOR_SCAN s') k = map_of (WAITING_FOR_SCAN s) k)
       \<and> (strip raw_reg \<in> fst ` set (WAITING_FOR_SCAN s) \<longrightarrow>
            length (WAITING_FOR_SCAN s') = length (WAITING_FOR_SCAN s)
            \<and> map fst (WAITING_FOR_SCAN s') = map fst (WAITING_FOR_SCAN s))
       \<and> (distinct (map fst (WAITING_FOR_SCAN s)) \<longrightarrow>
            length (filter (\<lambda>x. fst x = strip raw_reg) (WAITING_FOR_SCAN s')) = 1)"
      by blast
  qed
  from a b c show ?thesis by blast
qed

theorem registry_one_entry_per_id_witness:
  "strip ''Bob'' \<noteq> [] \<and> strip '' R1 '' = ''R1'' \<and> sheet_up (env_ok 7 ''Bob'')
   \<and> append_reply (env_ok 7 ''Bob'') = Inr ''Students!A5''
   \<and> py_int (filter py_isdigit ''Students!A5'') = Some 5
   \<and> ''R1'' \<in> fst ` set (WAITING_FOR_SCAN one_waiting)
   \<and> map_of (WAITING_FOR_SCAN (snd (register 4 (Some ''Bob'') (Some '' R1 '') (env_ok 7 ''Bob'') one_waiting))) ''R1'' =
       Some \<lparr>name = ''Bob'', timestamp = 7, row_index = 5\<rparr>
   \<and> length (WAITING_FOR_SCAN (snd (register 4 (Some ''Bob'') (Some '' R1 '') (env_ok 7 ''Bob'') one_waiting))) = 1"
proof -
  have h1: "strip ''Bob'' \<noteq> []" and h1': "strip ''Bob'' = ''Bob''"
    and h2: "strip '' R1 '' \<noteq> []" and h2': "strip '' R1 '' = ''R1''"
    by (simp_all add: strip_def py_isspace_def)
  have h3: "sheet_up (env_ok 7 ''Bob'')"
    and h4: "append_reply (env_ok 7 ''Bob'') = Inr ''Students!A5''"
    and h4': "now (env_ok 7 ''Bob'') = 7"
    by (simp_all add: env_ok_def)
  have h5: "py_int (filter py_isdigit ''Students!A5'') = Some 5"
    by (simp add: py_int_def py_isdigit_def py_isdecimal_def)
  have h6: "''R1'' \<in> fst ` set (WAITING_FOR_SCAN one_waiting)"
    and h7: "length (WAITING_FOR_SCAN one_waiting) = 1"
    by (simp_all add: one_waiting_def)
  from registry_one_entry_per_id
    [where raw_name = "''Bob''" and raw_reg = "'' R1 ''" and e = "env_ok 7 ''Bob''" and caller = 4
       and s = one_waiting and rs = "[]"]
    h1 h2 h3 h4 h5
  have "map_of (WAITING_FOR_SCAN (snd (register 4 (Some ''Bob'') (Some '' R1 '') (env_ok 7 ''Bob'') one_waiting))) (strip '' R1 '') =
          Some \<lparr>name = strip ''Bob'', timestamp = now (env_ok 7 ''Bob''), row_index = 5\<rparr>
     \<and> (strip '' R1 '' \<in> fst ` set (WAITING_FOR_SCAN one_waiting) \<longrightarrow>
            length (WAITING_FOR_SCAN (snd (register 4 (Some ''Bob'') (Some '' R1 '') (env_ok 7 ''Bob'') one_waiting))) = length (WAITING_FOR_SCAN one_waiting))"
    by blast
  with h1 h1' h2' h3 h4 h4' h5 h6 h7 show ?thesis by simp
qed

text \<open>
  C9. When the form of a \<open>/register\<close> request lacks the field \<open>name\<close> or the field
  \<open>reg_no\<close>, the handler raises \<open>AttributeError\<close> (\<open>strip\<close> called on \<open>None\<close>), which
  nothing catches, and the state is unchanged; the request is not answered with the
  validation error. Any JSON answer of \<open>register\<close>, the validation error included, comes
  from a request that carries both fields.
\<close>

theorem register_absent_field_raises:
  "(name_field = None \<or> reg_no_field = None \<longrightarrow>
      register caller name_field reg_no_field e s = (Uncaught ''AttributeError'', s))
   \<and> (\<forall>fields code. fst (register caller name_field reg_no_field e s) = Response fields code \<longrightarrow>
        (\<exists>n0 r0. name_field = Some n0 \<and> reg_no_field = Some r0))
   \<and> (fst (register caller name_field reg_no_field e s) =
         Response [(''status'', JStr ''error''),
                   (''message'', JStr ''Name and Register Number are required.'')] 200 \<longrightarrow>
        (\<exists>n0 r0. name_field = Some n0 \<and> reg_no_field = Some r0
           \<and> (strip n0 = [] \<or> strip r0 = [])))"
  by (auto simp add: register_def Let_def split: option.splits sum.splits if_splits)

theorem register_absent_field_raises_witness:
  "register 1 None (Some ''R1'') (env_ok 0 ''Alice'') init_state =
     (Uncaught ''AttributeError'', init_state)
   \<and> register 1 (Some ''Alice'') None (env_ok 0 ''Alice'') init_state =
     (Uncaught ''AttributeError'', init_state)"
  using register_absent_field_raises
      [where name_field = None and reg_no_field = "Some ''R1''" and caller = 1
         and e = "env_ok 0 ''Alice''" and s = init_state]
    register_absent_field_raises
      [where name_field = "Some ''Alice''" and reg_no_field = None and caller = 1
         and e = "env_ok 0 ''Alice''" and s = init_state]
  by simp

section \<open>Status polls\<close>

lemma handle_absent:
  assumes "map_of (WAITING_FOR_SCAN s) k = None"
    and "\<forall>c n r0. rq = Register c n (Some r0) \<longrightarrow> strip r0 \<noteq> k"
  shows "map_of (WAITING_FOR_SCAN (snd (handle rq e s))) k = None"
proof (cases rq)
  case (Register c n r)
  show ?thesis
  proof (cases "WAITING_FOR_SCAN (snd (register c n r e s)) = WAITING_FOR_SCAN s")
    case True
    with assms(1) Register show ?thesis by simp
  next
    case False
    from register_insert_needs_append [OF this]
    obtain n0 r0 added_range row where ok: "n = Some n0" "r = Some r0"
      "strip n0 \<noteq> []" "strip r0 \<noteq> []" "sheet_up e" "append_reply e = Inr added_range"
      "py_int (filter py_isdigit added_range) = Some row"
      by blast
    from assms(2) Register ok(2) have "strip r0 \<noteq> k" by simp
    with register_success [OF ok(3-7), of c s] assms(1) Register ok(1,2)
    show ?thesis by (simp add: AList.update_conv')
  qed
next
  case (Check_status c r)
  with assms(1) check_status_registry [of c r e s] show ?thesis
    by (auto simp add: AList.delete_conv')
next
  case (Link_rfid c b)
  with assms(1) link_rfid_registry [of c b e s] show ?thesis
    by (auto simp add: AList.delete_conv')
qed

lemma run_absent:
  assumes "map_of (WAITING_FOR_SCAN s) k = None"
    and "\<forall>x \<in> set rs. \<forall>c n r0. fst x = Register c n (Some r0) \<longrightarrow> strip r0 \<noteq> k"
  shows "map_of (WAITING_FOR_SCAN (run rs s)) k = None"
  using assms
proof (induction rs arbitrary: s)
  case Nil
  then show ?case by simp
next
  case (Cons x xs)
  from Cons.prems(2) have "\<forall>c n r0. fst x = Register c n (Some r0) \<longrightarrow> strip r0 \<noteq> k"
    by simp
  with Cons.prems(1) have "map_of (WAITING_FOR_SCAN (snd (handle (fst x) (snd x) s))) k = None"
    by (rule handle_absent)
  moreover from Cons.prems(2)
  have "\<forall>x \<in> set xs. \<forall>c n r0. fst x = Register c n (Some r0) \<longrightarrow> strip r0 \<noteq> k"
    by simp
  ultimately have "map_of (WAITING_FOR_SCAN (run xs (snd (handle (fst x) (snd x) s)))) k = None"
    by (rule Cons.IH)
  then show ?case by simp
qed

lemma check_status_absent:
  assumes "map_of (WAITING_FOR_SCAN s) reg_no = None"
  shows "fst (check_status caller reg_no e s) \<noteq>
           Response [(''status'', JStr ''timeout''),
                     (''message'', JStr ''Linking session timed out.'')] 408
       \<and> WAITING_FOR_SCAN (snd (check_status caller reg_no e s)) = WAITING_FOR_SCAN s"
  using assms by (simp add: check_status_def)

text \<open>
  C5. A status poll for a pending register number whose entry is older than the timeout
  (\<open>now - timestamp > TIMEOUT_SECONDS\<close>, strictly) pops the entry and answers "timeout"
  with HTTP status 408. An entry whose age is at most the timeout is left in place and
  answered "waiting". After the eviction the register number is absent from the dict, and
  it stays absent through any requests that do not register it again; a poll for it then
  changes nothing in the dict and is never answered "timeout".
\<close>

theorem timeout_reported_once:
  assumes "map_of (WAITING_FOR_SCAN s) reg_no = Some p"
    and "s' = snd (check_status caller reg_no e s)"
  shows "(now e - timestamp p > TIMEOUT_SECONDS \<longrightarrow>
        fst (check_status caller reg_no e s) =
          Response [(''status'', JStr ''timeout''),
                    (''message'', JStr ''Linking session timed out.'')] 408
        \<and> WAITING_FOR_SCAN s' = AList.delete reg_no (WAITING_FOR_SCAN s)
        \<and> map_of (WAITING_FOR_SCAN s') reg_no = None
        \<and> (\<forall>(rs :: (request \<times> env) list) c e'. (\<forall>x \<in> set rs. \<forall>c' n r0. fst x = Register c' n (Some r0) \<longrightarrow> strip r0 \<noteq> reg_no) \<longrightarrow>
              map_of (WAITING_FOR_SCAN (run rs s')) reg_no = None
              \<and> fst (check_status c reg_no e' (run rs s')) \<noteq>
                  Response [(''status'', JStr ''timeout''),
                            (''message'', JStr ''Linking session timed out.'')] 408
              \<and> WAITING_FOR_SCAN (snd (check_status c reg_no e' (run rs s'))) =
                  WAITING_FOR_SCAN (run rs s')))
    \<and> (now e - timestamp p \<le> TIMEOUT_SECONDS \<longrightarrow>
        check_status caller reg_no e s =
          (Response [(''status'', JStr ''waiting''),
                     (''message'', JStr ''Still waiting for RFID scan...'')] 200, s))"
proof -
  have late: "now e - timestamp p > TIMEOUT_SECONDS \<longrightarrow>
        fst (check_status caller reg_no e s) =
          Response [(''status'', JStr ''timeout''),
                    (''message'', JStr ''Linking session timed out.'')] 408
        \<and> WAITING_FOR_SCAN s' = AList.delete reg_no (WAITING_FOR_SCAN s)
        \<and> map_of (WAITING_FOR_SCAN s') reg_no = None
        \<and> (\<forall>(rs :: (request \<times> env) list) c e'. (\<forall>x \<in> set rs. \<forall>c' n r0. fst x = Register c' n (Some r0) \<longrightarrow> strip r0 \<noteq> reg_no) \<longrightarrow>
              map_of (WAITING_FOR_SCAN (run rs s')) reg_no = None
              \<and> fst (check_status c reg_no e' (run rs s')) \<noteq>
                  Response [(''status'', JStr ''timeout''),
                            (''message'', JStr ''Linking session timed out.'')] 408
              \<and> WAITING_FOR_SCAN (snd (check_status c reg_no e' (run rs s'))) =
                  WAITING_FOR_SCAN (run rs s'))"
  proof
    assume old: "now e - timestamp p > TIMEOUT_SECONDS"
    have resp: "fst (check_status caller reg_no e s) =
          Response [(''status'', JStr ''timeout''),
                    (''message'', JStr ''Linking session timed out.'')] 408"
      using assms(1) old by (simp add: check_status_def)
    have reg: "WAITING_FOR_SCAN s' = AList.delete reg_no (WAITING_FOR_SCAN s)"
      using assms old by (simp add: check_status_def)
    have gone: "map_of (WAITING_FOR_SCAN s') reg_no = None"
      using reg by (simp add: AList.delete_conv')
    have later: "\<forall>(rs :: (request \<times> env) list) c e'. (\<forall>x \<in> set rs. \<forall>c' n r0. fst x = Register c' n (Some r0) \<longrightarrow> strip r0 \<noteq> reg_no) \<longrightarrow>
              map_of (WAITING_FOR_SCAN (run rs s')) reg_no = None
              \<and> fst (check_status c reg_no e' (run rs s')) \<noteq>
                  Response [(''status'', JStr ''timeout''),
                            (''message'', JStr ''Linking session timed out.'')] 408
              \<and> WAITING_FOR_SCAN (snd (check_status c reg_no e' (run rs s'))) =
                  WAITING_FOR_SCAN (run rs s')"
    proof (intro allI impI)
      fix rs :: "(request \<times> env) list" and c :: nat and e' :: env
      assume "\<forall>x \<in> set rs. \<forall>c' n r0. fst x = Register c' n (Some r0) \<longrightarrow> strip r0 \<noteq> reg_no"
      with gone have absent: "map_of (WAITING_FOR_SCAN (run rs s')) reg_no = None"
        by (rule run_absent)
      from absent check_status_absent [OF absent, of c e']
      show "map_of (WAITING_FOR_SCAN (run rs s')) reg_no = None
              \<and> fst (check_status c reg_no e' (run rs s')) \<noteq>
                  Response [(''status'', JStr ''timeout''),
                            (''message'', JStr ''Linking session timed out.'')] 408
              \<and> WAITING_FOR_SCAN (snd (check_status c reg_no e' (run rs s'))) =
                  WAITING_FOR_SCAN (run rs s')"
        by simp
    qed
    from resp reg gone later
    show "fst (check_status caller reg_no e s) =
          Response [(''status'', JStr ''timeout''),
                    (''message'', JStr ''Linking session timed out.'')] 408
        \<and> WAITING_FOR_SCAN s' = AList.delete reg_no (WAITING_FOR_SCAN s)
        \<and> map_of (WAITING_FOR_SCAN s') reg_no = None
        \<and> (\<forall>(rs :: (request \<times> env) list) c e'. (\<forall>x \<in> set rs. \<forall>c' n r0. fst x = Register c' n (Some r0) \<longrightarrow> strip r0 \<noteq> reg_no) \<longrightarrow>
              map_of (WAITING_FOR_SCAN (run rs s')) reg_no = None
              \<and> fst (check_status c reg_no e' (run rs s')) \<noteq>
                  Response [(''status'', JStr ''timeout''),
                            (''message'', JStr ''Linking session timed out.'')] 408
              \<and> WAITING_FOR_SCAN (snd (check_status c reg_no e' (run rs s'))) =
                  WAITING_FOR_SCAN (run rs s'))"
      by blast
  qed
  have early: "now e - timestamp p \<le> TIMEOUT_SECONDS \<longrightarrow>
        check_status caller reg_no e s =
          (Response [(''status'', JStr ''waiting''),
                     (''message'', JStr ''Still waiting for RFID scan...'')] 200, s)"
    using assms(1) by (simp add: check_status_def)
  from late early show ?thesis by blast
qed

theorem timeout_reported_once_witness:
  "map_of (WAITING_FOR_SCAN one_waiting) ''R1'' =
      Some \<lparr>name = ''Alice'', timestamp = 0, row_index = 5\<rparr>
   \<and> now (env_ok 301 ''Alice'') - timestamp \<lparr>name = ''Alice'', timestamp = 0, row_index = 5\<rparr>
        > TIMEOUT_SECONDS
   \<and> fst (check_status 1 ''R1'' (env_ok 301 ''Alice'') one_waiting) =
        Response [(''status'', JStr ''timeout''),
                  (''message'', JStr ''Linking session timed out.'')] 408
   \<and> WAITING_FOR_SCAN (snd (check_status 1 ''R1'' (env_ok 301 ''Alice'') one_waiting)) = []
   \<and> fst (check_status 1 ''R1'' (env_ok 302 ''Alice'')
            (snd (check_status 1 ''R1'' (env_ok 301 ''Alice'') one_waiting))) \<noteq>
        Response [(''status'', JStr ''timeout''),
                  (''message'', JStr ''Linking session timed out.'')] 408
   \<and> now (env_ok 300 ''Alice'') - timestamp \<lparr>name = ''Alice'', timestamp = 0, row_index = 5\<rparr>
        \<le> TIMEOUT_SECONDS
   \<and> check_status 1 ''R1'' (env_ok 300 ''Alice'') one_waiting =
        (Response [(''status'', JStr ''waiting''),
                   (''message'', JStr ''Still waiting for RFID scan...'')] 200, one_waiting)"
proof -
  have h1: "map_of (WAITING_FOR_SCAN one_waiting) ''R1'' =
      Some \<lparr>name = ''Alice'', timestamp = 0, row_index = 5\<rparr>"
    and reg: "WAITING_FOR_SCAN one_waiting =
      [(''R1'', \<lparr>name = ''Alice'', timestamp = 0, row_index = 5\<rparr>)]"
    by (simp_all add: one_waiting_def)
  have h2: "now (env_ok 301 ''Alice'') - timestamp \<lparr>name = ''Alice'', timestamp = 0, row_index = 5\<rparr>
        > TIMEOUT_SECONDS"
    by (simp add: env_ok_def TIMEOUT_SECONDS_def)
  have h3: "now (env_ok 300 ''Alice'') - timestamp \<lparr>name = ''Alice'', timestamp = 0, row_index = 5\<rparr>
        \<le> TIMEOUT_SECONDS"
    by (simp add: env_ok_def TIMEOUT_SECONDS_def)
  have none: "\<forall>x \<in> set ([] :: (request \<times> env) list).
      \<forall>c' n r0. fst x = Register c' n (Some r0) \<longrightarrow> strip r0 \<noteq> ''R1''"
    by simp
  note late = timeout_reported_once
    [OF h1 refl, where caller = 1 and e = "env_ok 301 ''Alice''"]
  note early = timeout_reported_once
    [OF h1 refl, where caller = 1 and e = "env_ok 300 ''Alice''"]
  from late h2 have a: "fst (check_status 1 ''R1'' (env_ok 301 ''Alice'') one_waiting) =
        Response [(''status'', JStr ''timeout''),
                  (''message'', JStr ''Linking session timed out.'')] 408"
    and b: "WAITING_FOR_SCAN (snd (check_status 1 ''R1'' (env_ok 301 ''Alice'') one_waiting)) =
        AList.delete ''R1'' (WAITING_FOR_SCAN one_waiting)"
    and c: "\<forall>(rs :: (request \<times> env) list) c e'. (\<forall>x \<in> set rs. \<forall>c' n r0. fst x = Register c' n (Some r0) \<longrightarrow> strip r0 \<noteq> ''R1'') \<longrightarrow>
              fst (check_status c ''R1'' e' (run rs (snd (check_status 1 ''R1'' (env_ok 301 ''Alice'') one_waiting)))) \<noteq>
                  Response [(''status'', JStr ''timeout''),
                            (''message'', JStr ''Linking session timed out.'')] 408"
    by blast+
  from c none have d: "fst (check_status 1 ''R1'' (env_ok 302 ''Alice'')
            (run [] (snd (check_status 1 ''R1'' (env_ok 301 ''Alice'') one_waiting)))) \<noteq>
        Response [(''status'', JStr ''timeout''),
                  (''message'', JStr ''Linking session timed out.'')] 408"
    by blast
  from early h3 have f: "check_status 1 ''R1'' (env_ok 300 ''Alice'') one_waiting =
        (Response [(''status'', JStr ''waiting''),
                   (''message'', JStr ''Still waiting for RFID scan...'')] 200, one_waiting)"
    by blast
  from h1 h2 h3 a b d f reg show ?thesis by (simp add: AList.delete_eq)
qed

section \<open>The completion signal\<close>

text \<open>
  A scan writes \<open>linked_reg_no\<close> into the session of the client that sent the scan, and
  into no other session.
\<close>

lemma link_rfid_other_sessions:
  "caller \<noteq> scanner \<Longrightarrow> sessions (snd (link_rfid scanner body e s)) caller = sessions s caller"
  by (simp add: link_rfid_def Let_def split: option.splits list.splits)

lemma poll_after_foreign_scan:
  assumes "caller \<noteq> scanner"
    and "linked_reg_no (sessions s caller) \<noteq> Some reg_no"
    and "map_of (WAITING_FOR_SCAN (snd (link_rfid scanner body e s))) reg_no = None"
  shows "check_status caller reg_no e' (snd (link_rfid scanner body e s)) =
     (Response [(''status'', JStr ''error''),
                (''message'', JStr ''Session expired or invalid.'')] 200,
      snd (link_rfid scanner body e s))"
  using assms link_rfid_other_sessions [of caller scanner body e s]
  by (simp add: check_status_def)

text \<open>
  C1. The claim fails on the code. Client 1 (the browser) registers \<open>R1\<close>; client 2 (the
  scanner) posts a scan, which is answered "linked" for \<open>R1\<close>. The first status poll of
  client 1 for \<open>R1\<close> is then answered with the error "Session expired or invalid.", not
  with "linked": the signal sits in the session of client 2, whose own poll for \<open>R1\<close> is
  the one answered "linked".
\<close>

theorem browser_poll_after_scan:
  "fst (handle (Register 1 (Some ''Alice'') (Some ''R1'')) (env_ok 0 ''Alice'') init_state) =
      Response [(''status'', JStr ''waiting''),
                (''message'', JStr ''Student Alice registered. Waiting for RFID scan...''),
                (''reg_no'', JStr ''R1'')] 200
   \<and> fst (handle (Link_rfid 2 (Uid_str ''UID123'')) (env_ok 1 ''Alice'')
        (run [(Register 1 (Some ''Alice'') (Some ''R1''), env_ok 0 ''Alice'')] init_state)) =
      Response [(''status'', JStr ''linked''),
                (''name'', JStr ''Alice''),
                (''register_number'', JStr ''R1''),
                (''message'', JStr ''Card linked to Alice'')] 200
   \<and> fst (handle (Check_status 1 ''R1'') (env_ok 2 ''Alice'')
        (run [(Register 1 (Some ''Alice'') (Some ''R1''), env_ok 0 ''Alice''),
              (Link_rfid 2 (Uid_str ''UID123''), env_ok 1 ''Alice'')] init_state)) =
      Response [(''status'', JStr ''error''),
                (''message'', JStr ''Session expired or invalid.'')] 200
   \<and> fst (handle (Check_status 2 ''R1'') (env_ok 2 ''Alice'')
        (run [(Register 1 (Some ''Alice'') (Some ''R1''), env_ok 0 ''Alice''),
              (Link_rfid 2 (Uid_str ''UID123''), env_ok 1 ''Alice'')] init_state)) =
      Response [(''status'', JStr ''linked''),
                (''message'', JStr ''Card linked successfully!'')] 200"
  by (simp add: init_state_def env_ok_def register_def link_rfid_def check_status_def
      link_uid_to_student_def rfid_uid_of_def strip_def py_isspace_def py_int_def
      py_isdigit_def py_isdecimal_def jsonify_def py_str_def RFID_UID_COLUMN_def Let_def)

end
